theory Spec2Isabelle
  imports Main "HOL-Library.Multiset" "HOL-Library.Sublist" "HOL-Library.Monad_Syntax"
    "HOL-Library.Word"
begin

section \<open>JavaScript strings\<close>

text \<open>
  A JavaScript string is a sequence of 16-bit code units. \<open>js\<close> turns a literal of the
  source, written as a HOL string of ASCII characters, into its code units.
\<close>

type_synonym codeunit = "16 word"

type_synonym jsstring = "codeunit list"

definition js :: "string \<Rightarrow> jsstring" where
  "js s = map (\<lambda>c. of_nat (of_char c)) s"

section \<open>Leads state container (leadsSlice.ts)\<close>

text \<open>
  The TypeScript unions of \<open>status\<close> and \<open>source\<close> are erased at run time (the form
  casts its strings without a check), so both fields are strings here. The field \<open>id\<close>
  of the source is \<open>id'\<close>, since \<open>id\<close> is the identity function of HOL.
\<close>

record Lead =
  id' :: jsstring
  name :: jsstring
  company :: jsstring
  email :: jsstring
  phone :: jsstring
  status :: jsstring
  source :: jsstring
  "notes" :: jsstring

record LeadsState =
  leads :: "Lead list"

definition initialState :: LeadsState where
  "initialState = \<lparr>leads = []\<rparr>"

text \<open>\<open>Array.prototype.findIndex\<close>: the index of the first element that satisfies the
  predicate, \<open>-1\<close> when there is none.\<close>

fun findIndex_from :: "('a \<Rightarrow> bool) \<Rightarrow> 'a list \<Rightarrow> int \<Rightarrow> int" where
  "findIndex_from P [] k = - 1"
| "findIndex_from P (x # xs) k = (if P x then k else findIndex_from P xs (k + 1))"

definition findIndex :: "('a \<Rightarrow> bool) \<Rightarrow> 'a list \<Rightarrow> int" where
  "findIndex P xs = findIndex_from P xs 0"

definition setLeads :: "LeadsState \<Rightarrow> Lead list \<Rightarrow> LeadsState" where
  "setLeads state payload = state\<lparr>leads := payload\<rparr>"

definition addLead :: "LeadsState \<Rightarrow> Lead \<Rightarrow> LeadsState" where
  "addLead state payload = state\<lparr>leads := leads state @ [payload]\<rparr>"

definition updateLead :: "LeadsState \<Rightarrow> Lead \<Rightarrow> LeadsState" where
  "updateLead state payload =
     (let idx = findIndex (\<lambda>l. id' l = id' payload) (leads state)
      in if idx \<noteq> - 1 then state\<lparr>leads := (leads state)[nat idx := payload]\<rparr> else state)"

definition deleteLead :: "LeadsState \<Rightarrow> jsstring \<Rightarrow> LeadsState" where
  "deleteLead state payload = state\<lparr>leads := filter (\<lambda>l. id' l \<noteq> payload) (leads state)\<rparr>"

section \<open>JSON text of a leads array\<close>

text \<open>
  The screens persist the collection as \<open>JSON.stringify(leads)\<close> and read it back with
  \<open>JSON.parse\<close>. Both belong to the JavaScript platform and are defined by ECMA-262; they
  are written out here for the values of type \<open>Lead[]\<close>: arrays of objects with the eight
  string properties of a lead.

  \<open>JSON_stringify\<close> follows \<open>SerializeJSONArray\<close>, \<open>SerializeJSONObject\<close> and
  \<open>QuoteJSONString\<close> with no indentation: no white space, the properties in creation
  order (\<open>id, name, company, email, phone, status, source, notes\<close>, the order of the
  object literals of the source), and for each code point of a string: the two-character
  escapes for backspace, tab, line feed, form feed, carriage return, the double quote and
  the backslash; \<open>UnicodeEscape\<close> (four lower-case hex digits) for the other code units
  below \<open>0x20\<close> and for a surrogate that is not part of a pair; every other code unit,
  and both units of a surrogate pair, as they are.
\<close>

definition dquote :: codeunit where
  "dquote = 0x22"

definition backslash :: codeunit where
  "backslash = 0x5C"

definition isLeadingSurrogate :: "codeunit \<Rightarrow> bool" where
  "isLeadingSurrogate c = (0xD800 \<le> c \<and> c \<le> 0xDBFF)"

definition isTrailingSurrogate :: "codeunit \<Rightarrow> bool" where
  "isTrailingSurrogate c = (0xDC00 \<le> c \<and> c \<le> 0xDFFF)"

text \<open>The lower-case hex digit of a value below 16.\<close>

definition hexDigit :: "nat \<Rightarrow> codeunit" where
  "hexDigit k = (if k < 10 then of_nat (48 + k) else of_nat (87 + k))"

definition UnicodeEscape :: "codeunit \<Rightarrow> jsstring" where
  "UnicodeEscape c =
     (let n = unat c
      in [backslash, 0x75, hexDigit (n div 4096), hexDigit (n div 256 mod 16),
          hexDigit (n div 16 mod 16), hexDigit (n mod 16)])"

definition quoteUnit :: "codeunit \<Rightarrow> jsstring" where
  "quoteUnit c =
     (if c = 0x08 then [backslash, 0x62]
      else if c = 0x09 then [backslash, 0x74]
      else if c = 0x0A then [backslash, 0x6E]
      else if c = 0x0C then [backslash, 0x66]
      else if c = 0x0D then [backslash, 0x72]
      else if c = dquote then [backslash, dquote]
      else if c = backslash then [backslash, backslash]
      else if c < 0x20 \<or> isLeadingSurrogate c \<or> isTrailingSurrogate c then UnicodeEscape c
      else [c])"

text \<open>The code points of the string, front to back: a leading surrogate directly followed
  by a trailing one is one code point, written as its two units.\<close>

fun quoteUnits :: "jsstring \<Rightarrow> jsstring" where
  "quoteUnits [] = []"
| "quoteUnits [c] = quoteUnit c"
| "quoteUnits (c # d # cs) =
     (if isLeadingSurrogate c \<and> isTrailingSurrogate d then c # d # quoteUnits cs
      else quoteUnit c @ quoteUnits (d # cs))"

definition QuoteJSONString :: "jsstring \<Rightarrow> jsstring" where
  "QuoteJSONString s = dquote # quoteUnits s @ [dquote]"

definition serializeProperty :: "jsstring \<times> jsstring \<Rightarrow> jsstring" where
  "serializeProperty p = QuoteJSONString (fst p) @ js '':'' @ QuoteJSONString (snd p)"

fun joinComma :: "jsstring list \<Rightarrow> jsstring" where
  "joinComma [] = []"
| "joinComma [x] = x"
| "joinComma (x # y # ys) = x @ js '','' @ joinComma (y # ys)"

text \<open>The own properties of a lead object, in creation order.\<close>

definition leadProperties :: "Lead \<Rightarrow> (jsstring \<times> jsstring) list" where
  "leadProperties l =
     [(js ''id'', id' l),
      (js ''name'', name l),
      (js ''company'', company l),
      (js ''email'', email l),
      (js ''phone'', phone l),
      (js ''status'', status l),
      (js ''source'', source l),
      (js ''notes'', notes l)]"

definition serializeLead :: "Lead \<Rightarrow> jsstring" where
  "serializeLead l = js ''{'' @ joinComma (map serializeProperty (leadProperties l)) @ js ''}''"

definition JSON_stringify :: "Lead list \<Rightarrow> jsstring" where
  "JSON_stringify ls = js ''['' @ joinComma (map serializeLead ls) @ js '']''"

text \<open>
  \<open>JSON_parse\<close> follows the JSON grammar for such a text: white space (space, tab, line
  feed, carriage return) between tokens, every escape inside strings, the members of an
  object in any order, the last one winning when a name occurs twice. A \<open>Lead\<close> record has
  no property order and no other properties: a text whose value is not an array of
  objects with exactly the eight string properties has no value of type \<open>Lead[]\<close> and
  gives \<open>None\<close> here, as does a text that \<open>JSON.parse\<close> rejects with an exception.
\<close>

definition isWhiteSpace :: "codeunit \<Rightarrow> bool" where
  "isWhiteSpace c = (c = 0x20 \<or> c = 0x09 \<or> c = 0x0A \<or> c = 0x0D)"

definition skipWs :: "jsstring \<Rightarrow> jsstring" where
  "skipWs s = dropWhile isWhiteSpace s"

text \<open>\<open>expect p s\<close> strips the punctuation \<open>p\<close> from the front of \<open>s\<close>.\<close>

fun expect :: "jsstring \<Rightarrow> jsstring \<Rightarrow> jsstring option" where
  "expect [] s = Some s"
| "expect (p # ps) [] = None"
| "expect (p # ps) (c # cs) = (if p = c then expect ps cs else None)"

definition hexValue :: "codeunit \<Rightarrow> nat option" where
  "hexValue c =
     (if 0x30 \<le> c \<and> c \<le> 0x39 then Some (unat c - 48)
      else if 0x61 \<le> c \<and> c \<le> 0x66 then Some (unat c - 87)
      else if 0x41 \<le> c \<and> c \<le> 0x46 then Some (unat c - 55)
      else None)"

definition unescape :: "codeunit \<Rightarrow> codeunit option" where
  "unescape e =
     (if e = dquote then Some dquote
      else if e = backslash then Some backslash
      else if e = 0x2F then Some 0x2F
      else if e = 0x62 then Some 0x08
      else if e = 0x66 then Some 0x0C
      else if e = 0x6E then Some 0x0A
      else if e = 0x72 then Some 0x0D
      else if e = 0x74 then Some 0x09
      else None)"

text \<open>The characters of a string literal after its opening quote, up to and including the
  closing quote: the decoded string and the rest of the text.\<close>

fun parseStringBody :: "jsstring \<Rightarrow> (jsstring \<times> jsstring) option" where
  "parseStringBody [] = None"
| "parseStringBody (c # cs) =
     (if c = dquote then Some ([], cs)
      else if c = backslash then
        (case cs of
           [] \<Rightarrow> None
         | e # es \<Rightarrow>
             if e = 0x75 then
               (case es of
                  h1 # h2 # h3 # h4 # rest \<Rightarrow>
                    (case (hexValue h1, hexValue h2, hexValue h3, hexValue h4) of
                       (Some a, Some b, Some c', Some d) \<Rightarrow>
                         map_option (\<lambda>(s, r). (of_nat (4096 * a + 256 * b + 16 * c' + d) # s, r))
                           (parseStringBody rest)
                     | _ \<Rightarrow> None)
                | _ \<Rightarrow> None)
             else
               (case unescape e of
                  Some x \<Rightarrow> map_option (\<lambda>(s, r). (x # s, r)) (parseStringBody es)
                | None \<Rightarrow> None))
      else if c < 0x20 then None
      else map_option (\<lambda>(s, r). (c # s, r)) (parseStringBody cs))"

definition parseString :: "jsstring \<Rightarrow> (jsstring \<times> jsstring) option" where
  "parseString s = (case s of [] \<Rightarrow> None | c # cs \<Rightarrow> if c = dquote then parseStringBody cs else None)"

definition parseMember :: "jsstring \<Rightarrow> ((jsstring \<times> jsstring) \<times> jsstring) option" where
  "parseMember s =
     do {
       (k, r1) \<leftarrow> parseString (skipWs s);
       r2 \<leftarrow> expect (js '':'') (skipWs r1);
       (v, r3) \<leftarrow> parseString (skipWs r2);
       Some ((k, v), r3)
     }"

text \<open>The members of a non-empty object, up to and including the closing brace. The
  first argument bounds the number of members; \<open>parseLead\<close> passes the length of the
  text, which no object exceeds. \<open>parseElements\<close> does the same for the elements of a
  non-empty array.\<close>

fun parseMembers :: "nat \<Rightarrow> jsstring \<Rightarrow> ((jsstring \<times> jsstring) list \<times> jsstring) option" where
  "parseMembers 0 s = None"
| "parseMembers (Suc n) s =
     do {
       (m, r) \<leftarrow> parseMember s;
       (case skipWs r of
          [] \<Rightarrow> None
        | c # r' \<Rightarrow>
            if c = 0x7D then Some ([m], r')
            else if c = 0x2C then
              do { (ms, r'') \<leftarrow> parseMembers n r'; Some (m # ms, r'') }
            else None)
     }"

definition leadKeys :: "jsstring list" where
  "leadKeys = [js ''id'', js ''name'', js ''company'', js ''email'', js ''phone'', js ''status'', js ''source'', js ''notes'']"

text \<open>The value of a property: the last member of that name.\<close>

definition property :: "(jsstring \<times> jsstring) list \<Rightarrow> jsstring \<Rightarrow> jsstring option" where
  "property ms k = map_of (rev ms) k"

definition leadOfMembers :: "(jsstring \<times> jsstring) list \<Rightarrow> Lead option" where
  "leadOfMembers ms =
     do {
       v1 \<leftarrow> property ms (js ''id'');
       v2 \<leftarrow> property ms (js ''name'');
       v3 \<leftarrow> property ms (js ''company'');
       v4 \<leftarrow> property ms (js ''email'');
       v5 \<leftarrow> property ms (js ''phone'');
       v6 \<leftarrow> property ms (js ''status'');
       v7 \<leftarrow> property ms (js ''source'');
       v8 \<leftarrow> property ms (js ''notes'');
       if set (map fst ms) \<subseteq> set leadKeys
       then Some \<lparr>id' = v1, name = v2, company = v3, email = v4, phone = v5, status = v6, source = v7, notes = v8\<rparr>
       else None
     }"

definition parseLead :: "jsstring \<Rightarrow> (Lead \<times> jsstring) option" where
  "parseLead s =
     do {
       r0 \<leftarrow> expect (js ''{'') (skipWs s);
       (ms, r) \<leftarrow> parseMembers (length r0) r0;
       l \<leftarrow> leadOfMembers ms;
       Some (l, r)
     }"

fun parseElements :: "nat \<Rightarrow> jsstring \<Rightarrow> (Lead list \<times> jsstring) option" where
  "parseElements 0 s = None"
| "parseElements (Suc n) s =
     do {
       (l, r) \<leftarrow> parseLead s;
       (case skipWs r of
          [] \<Rightarrow> None
        | c # r' \<Rightarrow>
            if c = 0x5D then Some ([l], r')
            else if c = 0x2C then
              do { (ls, r'') \<leftarrow> parseElements n r'; Some (l # ls, r'') }
            else None)
     }"

definition JSON_parse :: "jsstring \<Rightarrow> Lead list option" where
  "JSON_parse text =
     (case expect (js ''['') (skipWs text) of
        None \<Rightarrow> None
      | Some r \<Rightarrow>
          (case skipWs r of
             [] \<Rightarrow> None
           | c # r' \<Rightarrow>
               if c = 0x5D then (if skipWs r' = [] then Some [] else None)
               else
                 (case parseElements (length r) r of
                    None \<Rightarrow> None
                  | Some (ls, r'') \<Rightarrow> if skipWs r'' = [] then Some ls else None)))"

section \<open>Redux store and device storage\<close>

text \<open>
  \<open>AuthState\<close> is the state of authSlice.ts. A JSON response body is kept as the fields
  the app reads from it (\<open>message\<close>, \<open>access_token\<close>, \<open>email\<close>), each absent or a string;
  the \<open>user\<close> of the state is the body of the profile response.
\<close>

record ResponseBody =
  message :: "jsstring option"
  access_token :: "jsstring option"
  body_email :: "jsstring option"

record AuthState =
  user :: "ResponseBody option"
  token :: "jsstring option"
  loading :: bool
  error :: "jsstring option"

text \<open>
  AsyncStorage and SecureStore are maps from keys to strings. \<open>requests\<close> is the trace
  of the remote calls made so far. \<open>World\<close> is the Redux store (\<open>auth\<close>, \<open>leads\<close>)
  together with the storage of the device.
\<close>

type_synonym storage = "jsstring \<rightharpoonup> jsstring"

record World =
  auth :: AuthState
  leadsState :: LeadsState
  asyncStorage :: storage
  secureStore :: storage
  requests :: "string list"

text \<open>Truthiness of a value that is a string, \<open>null\<close> or \<open>undefined\<close>.\<close>

definition truthy :: "jsstring option \<Rightarrow> bool" where
  "truthy v = (case v of None \<Rightarrow> False | Some s \<Rightarrow> s \<noteq> [])"

section \<open>Persistence of the leads (tableData.tsx, addLeadForm.tsx)\<close>

text \<open>\<open>getLeadsKey\<close>: the template literal prints a missing email as \<open>null\<close>.\<close>

definition getLeadsKey :: "storage \<Rightarrow> jsstring" where
  "getLeadsKey st =
     (let email = st (js ''currentUserEmail'')
      in js ''leads_'' @ (case email of None \<Rightarrow> js ''null'' | Some e \<Rightarrow> e))"

text \<open>
  \<open>fetchLeads\<close>: an absent or empty entry gives the empty collection, and so does a text
  that \<open>JSON.parse\<close> rejects (the \<open>catch\<close> branch). The \<open>loading\<close> and \<open>refreshing\<close>
  flags of the component are not part of the model.
\<close>

definition fetchLeads :: "World \<Rightarrow> World" where
  "fetchLeads w =
     (let leadsKey = getLeadsKey (asyncStorage w);
          storedLeads = asyncStorage w leadsKey
      in if truthy storedLeads then
           (case JSON_parse (the storedLeads) of
              Some parsed \<Rightarrow> w\<lparr>leadsState := setLeads (leadsState w) parsed\<rparr>
            | None \<Rightarrow> w\<lparr>leadsState := setLeads (leadsState w) []\<rparr>)
         else w\<lparr>leadsState := setLeads (leadsState w) []\<rparr>)"

text \<open>
  The handlers close over \<open>leads\<close>, the collection that \<open>useSelector\<close> returned at the
  last render; it is the first argument \<open>leads_c\<close> and is not read from the store again
  after the dispatch.
\<close>

definition handleDelete :: "Lead list \<Rightarrow> jsstring \<Rightarrow> World \<Rightarrow> World" where
  "handleDelete leads_c k w =
     (let leadsKey = getLeadsKey (asyncStorage w);
          w1 = w\<lparr>leadsState := deleteLead (leadsState w) k\<rparr>;
          updated = filter (\<lambda>l. id' l \<noteq> k) leads_c
      in w1\<lparr>asyncStorage := (asyncStorage w1)(leadsKey \<mapsto> JSON_stringify updated)\<rparr>)"

definition handleStatusChange :: "Lead list \<Rightarrow> Lead \<Rightarrow> jsstring \<Rightarrow> World \<Rightarrow> World" where
  "handleStatusChange leads_c lead newStatus w =
     (let leadsKey = getLeadsKey (asyncStorage w);
          updatedLead = lead\<lparr>status := newStatus\<rparr>;
          w1 = w\<lparr>leadsState := updateLead (leadsState w) updatedLead\<rparr>;
          updated = map (\<lambda>l. if id' l = id' lead then updatedLead else l) leads_c
      in w1\<lparr>asyncStorage := (asyncStorage w1)(leadsKey \<mapsto> JSON_stringify updated)\<rparr>)"

text \<open>The values of the form of addLeadForm.tsx.\<close>

record LeadFormData =
  leadName :: jsstring
  form_company :: jsstring
  form_email :: jsstring
  form_phone :: jsstring
  form_status :: jsstring
  form_source :: jsstring
  form_notes :: jsstring

definition formLead :: "jsstring \<Rightarrow> LeadFormData \<Rightarrow> Lead" where
  "formLead i data =
     \<lparr>id' = i, name = leadName data, company = form_company data, email = form_email data,
      phone = form_phone data, status = form_status data, source = form_source data,
      notes = form_notes data\<rparr>"

text \<open>
  \<open>onSubmit\<close>, edit branch (route parameter \<open>id\<close> present): the entry is rebuilt from the
  form, dispatched as \<open>updateLead\<close>, and the array written is the closure's collection
  mapped over.
\<close>

definition onSubmit_edit :: "Lead list \<Rightarrow> jsstring \<Rightarrow> LeadFormData \<Rightarrow> World \<Rightarrow> World" where
  "onSubmit_edit leads_c i data w =
     (let leadsKey = getLeadsKey (asyncStorage w);
          lead = formLead i data;
          w1 = w\<lparr>leadsState := updateLead (leadsState w) lead\<rparr>;
          updated = map (\<lambda>l. if id' l = i then lead else l) leads_c
      in w1\<lparr>asyncStorage := (asyncStorage w1)(leadsKey \<mapsto> JSON_stringify updated)\<rparr>)"

text \<open>
  \<open>onSubmit\<close>, add branch: the new id is the value of \<open>uuid.v4()\<close>. The array written is
  the stored one with the lead pushed, not the closure's. When \<open>JSON.parse\<close> throws, the
  \<open>catch\<close> block runs after the dispatch and nothing is written.
\<close>

definition onSubmit_add :: "jsstring \<Rightarrow> LeadFormData \<Rightarrow> World \<Rightarrow> World" where
  "onSubmit_add uuid data w =
     (let leadsKey = getLeadsKey (asyncStorage w);
          lead = formLead uuid data;
          w1 = w\<lparr>leadsState := addLead (leadsState w) lead\<rparr>;
          existing = asyncStorage w1 leadsKey
      in case (if truthy existing then JSON_parse (the existing) else Some []) of
           None \<Rightarrow> w1
         | Some leadsArr \<Rightarrow>
             w1\<lparr>asyncStorage := (asyncStorage w1)(leadsKey \<mapsto> JSON_stringify (leadsArr @ [lead]))\<rparr>)"

definition onSubmit :: "Lead list \<Rightarrow> jsstring option \<Rightarrow> jsstring \<Rightarrow> LeadFormData \<Rightarrow> World \<Rightarrow> World" where
  "onSubmit leads_c id_param uuid data w =
     (if truthy id_param then onSubmit_edit leads_c (the id_param) data w
      else onSubmit_add uuid data w)"

text \<open>
  The in-memory collection matches the persisted entry: the entry parses to the
  collection, or there is no entry and the collection is empty.
\<close>

definition inSync :: "World \<Rightarrow> bool" where
  "inSync w =
     (case asyncStorage w (getLeadsKey (asyncStorage w)) of
        None \<Rightarrow> leads (leadsState w) = []
      | Some text \<Rightarrow> JSON_parse text = Some (leads (leadsState w)))"

text \<open>
  After an action that led from \<open>w\<close> to \<open>w'\<close>, the entry under the leads key of \<open>w\<close> is the
  serialized in-memory collection of \<open>w'\<close>.
\<close>

definition persistedIsMemory :: "World \<Rightarrow> World \<Rightarrow> bool" where
  "persistedIsMemory w w' =
     (asyncStorage w' (getLeadsKey (asyncStorage w)) = Some (JSON_stringify (leads (leadsState w'))))"

section \<open>Auth state container (authSlice.ts)\<close>

definition initialAuthState :: AuthState where
  "initialAuthState = \<lparr>user = None, token = None, loading = False, error = None\<rparr>"

subsection \<open>Reducers\<close>

definition logout :: "AuthState \<Rightarrow> AuthState" where
  "logout state = state\<lparr>user := None, token := None\<rparr>"

definition clearError :: "AuthState \<Rightarrow> AuthState" where
  "clearError state = state\<lparr>error := None\<rparr>"

definition loginUser_pending :: "AuthState \<Rightarrow> AuthState" where
  "loginUser_pending state = state\<lparr>loading := True, error := None\<rparr>"

text \<open>The payload of \<open>loginUser.fulfilled\<close> is the pair \<open>{access_token, user}\<close>.\<close>

definition loginUser_fulfilled :: "AuthState \<Rightarrow> jsstring option \<times> ResponseBody \<Rightarrow> AuthState" where
  "loginUser_fulfilled state payload =
     state\<lparr>loading := False, token := fst payload, user := Some (snd payload)\<rparr>"

text \<open>The payload of a rejection is the value given to \<open>rejectWithValue\<close>, if any.\<close>

definition loginUser_rejected :: "AuthState \<Rightarrow> jsstring option \<Rightarrow> AuthState" where
  "loginUser_rejected state payload =
     state\<lparr>loading := False,
           error := Some (case payload of Some m \<Rightarrow> m | None \<Rightarrow> js ''An error occurred'')\<rparr>"

definition registerUser_pending :: "AuthState \<Rightarrow> AuthState" where
  "registerUser_pending state = state\<lparr>loading := True, error := None\<rparr>"

definition registerUser_fulfilled :: "AuthState \<Rightarrow> ResponseBody \<Rightarrow> AuthState" where
  "registerUser_fulfilled state payload = state\<lparr>loading := False, user := Some payload\<rparr>"

definition registerUser_rejected :: "AuthState \<Rightarrow> jsstring option \<Rightarrow> AuthState" where
  "registerUser_rejected state payload =
     state\<lparr>loading := False,
           error := Some (case payload of Some m \<Rightarrow> m | None \<Rightarrow> js ''An error occurred'')\<rparr>"

definition loadToken_fulfilled :: "AuthState \<Rightarrow> jsstring option \<Rightarrow> AuthState" where
  "loadToken_fulfilled state payload = state\<lparr>token := payload\<rparr>"

definition logoutUser_fulfilled :: "AuthState \<Rightarrow> AuthState" where
  "logoutUser_fulfilled state = state\<lparr>user := None, token := None\<rparr>"

subsection \<open>The remote API and the secure store\<close>

text \<open>
  A thrown value is an \<open>Error\<close> with its message or some other value; an awaited promise
  resolves or rejects with a thrown value. A response carries its status and the outcome
  of \<open>response.json()\<close>; \<open>response.ok\<close> is the status range 200 to 299. The remote API
  answers the login request by the credentials and the profile request by the
  \<open>Authorization\<close> header.
\<close>

datatype thrown = JsError jsstring | NonError

datatype 'a outcome = Resolved 'a | Rejected thrown

record Response =
  http_status :: nat
  json :: "ResponseBody outcome"

definition ok :: "Response \<Rightarrow> bool" where
  "ok r = (200 \<le> http_status r \<and> http_status r \<le> 299)"

record LoginCredentials =
  login_email :: jsstring
  password :: jsstring

record RemoteApi =
  post_login :: "LoginCredentials \<Rightarrow> Response outcome"
  get_profile :: "jsstring \<Rightarrow> Response outcome"

text \<open>
  \<open>SecureStore.setItemAsync\<close> of expo-secure-store refuses a value that is not a string
  by throwing an \<open>Error\<close>. \<open>deleteItemAsync\<close> hands the key to the native store: the
  call resolves and the key is gone, or it rejects with what the native side threw; that
  outcome is the first argument (\<open>None\<close> when the native call succeeds).
\<close>

definition invalidValueMessage :: jsstring where
  "invalidValueMessage = js ''Invalid value provided to SecureStore. Values must be strings; consider JSON-encoding your values if they are serializable.''"

definition SecureStore_setItemAsync :: "jsstring \<Rightarrow> jsstring option \<Rightarrow> storage \<Rightarrow> thrown + storage" where
  "SecureStore_setItemAsync key v store =
     (case v of None \<Rightarrow> Inl (JsError invalidValueMessage) | Some s \<Rightarrow> Inr (store(key \<mapsto> s)))"

definition SecureStore_deleteItemAsync :: "thrown option \<Rightarrow> jsstring \<Rightarrow> storage \<Rightarrow> thrown + storage" where
  "SecureStore_deleteItemAsync native key store =
     (case native of Some e \<Rightarrow> Inl e | None \<Rightarrow> Inr (store(key := None)))"

subsection \<open>Thunks\<close>

text \<open>\<open>m || d\<close> for a message that is a string or absent.\<close>

definition orDefault :: "jsstring option \<Rightarrow> jsstring \<Rightarrow> jsstring" where
  "orDefault m d = (case m of None \<Rightarrow> d | Some s \<Rightarrow> if s \<noteq> [] then s else d)"

text \<open>The header \<open>Bearer ${data.access_token}\<close>.\<close>

definition bearer :: "jsstring option \<Rightarrow> jsstring" where
  "bearer t = js ''Bearer '' @ (case t of None \<Rightarrow> js ''undefined'' | Some s \<Rightarrow> s)"

text \<open>
  The \<open>try\<close> block of \<open>loginUser\<close>: the value returned or the value thrown, and the world
  as the block leaves it. A throw keeps what was written before it.
\<close>

definition loginUser_try ::
  "RemoteApi \<Rightarrow> LoginCredentials \<Rightarrow> World \<Rightarrow> (thrown + (jsstring option \<times> ResponseBody)) \<times> World" where
  "loginUser_try api Credentials w =
     (let w1 = w\<lparr>requests := requests w @ [''POST /auth/login'']\<rparr>
      in case post_login api Credentials of
           Rejected e \<Rightarrow> (Inl e, w1)
         | Resolved response \<Rightarrow>
             (case json response of
                Rejected e \<Rightarrow> (Inl e, w1)
              | Resolved data \<Rightarrow>
                  if http_status response \<noteq> 201
                  then (Inl (JsError (orDefault (message data) (js ''login Failed''))), w1)
                  else
                    (case SecureStore_setItemAsync (js ''token'') (access_token data) (secureStore w1) of
                       Inl e \<Rightarrow> (Inl e, w1)
                     | Inr store \<Rightarrow>
                         (let w2 = w1\<lparr>secureStore := store,
                                       requests := requests w1 @ [''GET /auth/profile'']\<rparr>
                          in case get_profile api (bearer (access_token data)) of
                               Rejected e \<Rightarrow> (Inl e, w2)
                             | Resolved profileResponse \<Rightarrow>
                                 (case json profileResponse of
                                    Rejected e \<Rightarrow> (Inl e, w2)
                                  | Resolved user_body \<Rightarrow>
                                      if \<not> ok profileResponse
                                      then (Inl (JsError (orDefault (message user_body)
                                                  (js ''Failed to fetch user profile''))), w2)
                                      else (Inr (access_token data, user_body), w2))))))"

datatype 'a thunkResult = Fulfilled 'a | RejectedWithValue jsstring

text \<open>The \<open>catch\<close> block turns the thrown value into the rejection value.\<close>

definition loginUser ::
  "RemoteApi \<Rightarrow> LoginCredentials \<Rightarrow> World \<Rightarrow> (jsstring option \<times> ResponseBody) thunkResult \<times> World" where
  "loginUser api Credentials w =
     (case loginUser_try api Credentials w of
        (Inr payload, w') \<Rightarrow> (Fulfilled payload, w')
      | (Inl e, w') \<Rightarrow>
          (RejectedWithValue
             (case e of JsError m \<Rightarrow> m | NonError \<Rightarrow> js ''An unknown error occurred''), w'))"

text \<open>Dispatching the thunk: the pending reducer, the thunk, then the reducer of its result.\<close>

definition dispatch_loginUser :: "RemoteApi \<Rightarrow> LoginCredentials \<Rightarrow> World \<Rightarrow> World" where
  "dispatch_loginUser api Credentials w =
     (let w0 = w\<lparr>auth := loginUser_pending (auth w)\<rparr>
      in case loginUser api Credentials w0 of
           (Fulfilled payload, w1) \<Rightarrow> w1\<lparr>auth := loginUser_fulfilled (auth w1) payload\<rparr>
         | (RejectedWithValue m, w1) \<Rightarrow> w1\<lparr>auth := loginUser_rejected (auth w1) (Some m)\<rparr>)"

text \<open>
  \<open>logoutUser\<close>: await the delete of the stored token, then dispatch \<open>logout()\<close>. The
  thunk has no \<open>try\<close>: when the delete rejects, the statements after it do not run and
  the thunk rejects with the thrown value. The result is that value, if any, and the world.
\<close>

definition logoutUser :: "thrown option \<Rightarrow> World \<Rightarrow> thrown option \<times> World" where
  "logoutUser native w =
     (case SecureStore_deleteItemAsync native (js ''token'') (secureStore w) of
        Inl e \<Rightarrow> (Some e, w)
      | Inr store \<Rightarrow>
          (let w1 = w\<lparr>secureStore := store\<rparr>
           in (None, w1\<lparr>auth := logout (auth w1)\<rparr>)))"

text \<open>
  Dispatching \<open>logoutUser\<close>: the slice has a case for \<open>logoutUser.fulfilled\<close> only, none
  for its pending or rejected action, so a rejection leaves the state as the thunk left it.
\<close>

definition dispatch_logoutUser :: "thrown option \<Rightarrow> World \<Rightarrow> World" where
  "dispatch_logoutUser native w =
     (case logoutUser native w of
        (None, w1) \<Rightarrow> w1\<lparr>auth := logoutUser_fulfilled (auth w1)\<rparr>
      | (Some e, w1) \<Rightarrow> w1)"

section \<open>Redirects (index.tsx, Login.tsx, profile.tsx)\<close>

datatype route = TableData | Login

text \<open>The effect of index.tsx: no redirect while \<open>loading\<close>, otherwise by \<open>user\<close>.\<close>

definition index_redirect :: "AuthState \<Rightarrow> route option" where
  "index_redirect state =
     (if \<not> loading state
      then (if user state \<noteq> None then Some TableData else Some Login)
      else None)"

text \<open>
  The effect of Login.tsx on \<open>token\<close> and \<open>user\<close>, with the flag \<open>loginHandled\<close> of the
  component: the new flag, the redirect if any, and the world.
\<close>

definition Login_effect :: "bool \<Rightarrow> World \<Rightarrow> bool \<times> route option \<times> World" where
  "Login_effect loginHandled w =
     (let state = auth w;
          (handled, redirect, w1) =
            (if truthy (token state) \<and> \<not> loginHandled
             then (True, Some TableData,
                   (case user state of
                      None \<Rightarrow> w
                    | Some u \<Rightarrow>
                        (case body_email u of
                           None \<Rightarrow> w
                         | Some e \<Rightarrow>
                             if e \<noteq> []
                             then w\<lparr>asyncStorage := (asyncStorage w)(js ''currentUserEmail'' \<mapsto> e)\<rparr>
                             else w)))
             else (loginHandled, None, w))
      in (if \<not> truthy (token state) \<and> user state = None then False else handled, redirect, w1))"

text \<open>The effect of profile.tsx on \<open>token\<close>.\<close>

definition Profile_redirect :: "AuthState \<Rightarrow> route option" where
  "Profile_redirect state = (if \<not> truthy (token state) then Some Login else None)"

section \<open>Runs of \<open>loginUser\<close>\<close>




text \<open>The login request is answered with status 201 and the access token \<open>t\<close>.\<close>

definition loginIssues :: "RemoteApi \<Rightarrow> LoginCredentials \<Rightarrow> jsstring \<Rightarrow> bool" where
  "loginIssues api Credentials t =
     (case post_login api Credentials of
        Rejected e \<Rightarrow> False
      | Resolved response \<Rightarrow>
          (case json response of
             Rejected e \<Rightarrow> False
           | Resolved data \<Rightarrow> http_status response = 201 \<and> access_token data = Some t))"

text \<open>The profile request with the token \<open>t\<close> fails: the fetch rejects, the body does not
  parse, or the status is outside 200 to 299.\<close>

definition profileFails :: "RemoteApi \<Rightarrow> jsstring \<Rightarrow> bool" where
  "profileFails api t =
     (case get_profile api (bearer (Some t)) of
        Rejected e \<Rightarrow> True
      | Resolved profileResponse \<Rightarrow>
          (case json profileResponse of
             Rejected e \<Rightarrow> True
           | Resolved user_body \<Rightarrow> \<not> ok profileResponse))"





section \<open>Concrete worlds for the runs below\<close>

text \<open>A lead with the given id and name.\<close>

definition sampleLead :: "string \<Rightarrow> string \<Rightarrow> Lead" where
  "sampleLead i n =
     \<lparr>id' = js i, name = js n, company = js ''B'', email = js ''a@b.com'',
      phone = js ''1234567890'', status = js ''New'', source = js ''Website'', notes = js ''''\<rparr>"

text \<open>A device on which \<open>a@b.com\<close> is the current user and the given collection is both in
  memory and persisted.\<close>

definition sampleWorld :: "Lead list \<Rightarrow> World" where
  "sampleWorld ls =
     \<lparr>auth = initialAuthState,
      leadsState = \<lparr>leads = ls\<rparr>,
      asyncStorage = [js ''currentUserEmail'' \<mapsto> js ''a@b.com'',
                      js ''leads_a@b.com'' \<mapsto> JSON_stringify ls],
      secureStore = Map.empty,
      requests = []\<rparr>"

text \<open>The same device before anything was persisted: an empty account.\<close>

definition emptyAccount :: World where
  "emptyAccount =
     \<lparr>auth = initialAuthState,
      leadsState = initialState,
      asyncStorage = [js ''currentUserEmail'' \<mapsto> js ''a@b.com''],
      secureStore = Map.empty,
      requests = []\<rparr>"

definition sampleForm :: LeadFormData where
  "sampleForm =
     \<lparr>leadName = js ''A'', form_company = js ''B'', form_email = js ''a@b.com'',
      form_phone = js ''1234567890'', form_status = js ''New'', form_source = js ''Website'',
      form_notes = js ''''\<rparr>"

text \<open>A remote API that refuses every login with 401, and one that issues the token
  \<open>tok\<close> and then refuses the profile request with 401.\<close>

definition unauthorized :: Response where
  "unauthorized =
     \<lparr>http_status = 401,
      json = Resolved \<lparr>message = Some (js ''Unauthorized''), access_token = None,
                       body_email = None\<rparr>\<rparr>"


definition halfwayApi :: RemoteApi where
  "halfwayApi =
     \<lparr>post_login = (\<lambda>c. Resolved
        \<lparr>http_status = 201,
         json = Resolved \<lparr>message = None, access_token = Some (js ''tok''), body_email = None\<rparr>\<rparr>),
      get_profile = (\<lambda>h. Resolved unauthorized)\<rparr>"



definition sampleCredentials :: LoginCredentials where
  "sampleCredentials = \<lparr>login_email = js ''a@b.com'', password = js ''secret1''\<rparr>"

definition sampleUser :: ResponseBody where
  "sampleUser = \<lparr>message = None, access_token = None, body_email = Some (js ''a@b.com'')\<rparr>"

text \<open>The device after a login: user and token in memory, the token in the secure store.\<close>

definition loggedIn :: World where
  "loggedIn =
     emptyAccount
       \<lparr>auth := \<lparr>user = Some sampleUser, token = Some (js ''tok''), loading = False, error = None\<rparr>,
        secureStore := [js ''token'' \<mapsto> js ''tok'']\<rparr>"

section \<open>Literals\<close>

lemma js_Nil [simp]: "js [] = []"
  by (simp add: js_def)

lemma js_Cons [simp]: "js (c # s) = of_nat (of_char c) # js s"
  by (simp add: js_def)

section \<open>Properties of the leads reducers\<close>

lemma findIndex_from_none:
  "0 \<le> k \<Longrightarrow> (findIndex_from P xs k = - 1) = (\<forall>x \<in> set xs. \<not> P x)"
  by (induction xs arbitrary: k) auto

lemma findIndex_from_first:
  "\<forall>x \<in> set pre. \<not> P x \<Longrightarrow> P x \<Longrightarrow>
   findIndex_from P (pre @ x # post) k = k + int (length pre)"
  by (induction pre arbitrary: k) auto

lemma findIndex_none: "(findIndex P xs = - 1) = (\<forall>x \<in> set xs. \<not> P x)"
  by (simp add: findIndex_def findIndex_from_none)

lemma findIndex_first:
  "\<forall>x \<in> set pre. \<not> P x \<Longrightarrow> P x \<Longrightarrow> findIndex P (pre @ x # post) = int (length pre)"
  by (simp add: findIndex_def findIndex_from_first)

lemma findIndex_from_range:
  "0 \<le> k \<Longrightarrow> findIndex_from P xs k \<noteq> - 1 \<Longrightarrow>
   k \<le> findIndex_from P xs k \<and> findIndex_from P xs k < k + int (length xs)
   \<and> P (xs ! nat (findIndex_from P xs k - k))"
proof (induction xs arbitrary: k)
  case Nil
  then show ?case by simp
next
  case (Cons x xs)
  show ?case
  proof (cases "P x")
    case True
    then show ?thesis by simp
  next
    case False
    with Cons.prems have ne: "findIndex_from P xs (k + 1) \<noteq> - 1" by simp
    from Cons.prems have "0 \<le> k + 1" by simp
    from Cons.IH [OF this ne]
    have ih: "k + 1 \<le> findIndex_from P xs (k + 1)"
      "findIndex_from P xs (k + 1) < k + 1 + int (length xs)"
      "P (xs ! nat (findIndex_from P xs (k + 1) - (k + 1)))" by simp_all
    have "nat (findIndex_from P xs (k + 1) - k) = Suc (nat (findIndex_from P xs (k + 1) - (k + 1)))"
      using ih(1) by linarith
    with ih False show ?thesis by simp
  qed
qed

lemma findIndex_hit:
  "findIndex P xs \<noteq> - 1 \<Longrightarrow>
   0 \<le> findIndex P xs \<and> nat (findIndex P xs) < length xs \<and> P (xs ! nat (findIndex P xs))"
  using findIndex_from_range [of 0 P xs] by (auto simp: findIndex_def)

text \<open>
  Claim C4. \<open>updateLead\<close> replaces the first entry whose id equals the id of the payload
  by the payload; when no entry has that id the state is left as it is.
\<close>

theorem updateLead_replaces_first_match:
  "(\<forall>pre x post.
      leads state = pre @ x # post \<and> (\<forall>l \<in> set pre. id' l \<noteq> id' payload) \<and> id' x = id' payload
      \<longrightarrow> leads (updateLead state payload) = pre @ payload # post)
   \<and> ((\<forall>l \<in> set (leads state). id' l \<noteq> id' payload) \<longrightarrow> updateLead state payload = state)"
proof (intro conjI allI impI)
  fix pre x post
  assume h: "leads state = pre @ x # post \<and> (\<forall>l \<in> set pre. id' l \<noteq> id' payload)
             \<and> id' x = id' payload"
  then have "findIndex (\<lambda>l. id' l = id' payload) (leads state) = int (length pre)"
    by (simp add: findIndex_first)
  with h show "leads (updateLead state payload) = pre @ payload # post"
    by (simp add: updateLead_def)
next
  assume "\<forall>l \<in> set (leads state). id' l \<noteq> id' payload"
  then have "findIndex (\<lambda>l. id' l = id' payload) (leads state) = - 1"
    by (simp add: findIndex_none)
  then show "updateLead state payload = state"
    by (simp add: updateLead_def)
qed

theorem updateLead_replaces_first_match_witness:
  "leads (updateLead \<lparr>leads = [sampleLead ''1'' ''A'', sampleLead ''2'' ''B'', sampleLead ''2'' ''C'']\<rparr>
            (sampleLead ''2'' ''Z''))
     = [sampleLead ''1'' ''A'', sampleLead ''2'' ''Z'', sampleLead ''2'' ''C'']
   \<and> updateLead \<lparr>leads = [sampleLead ''1'' ''A'']\<rparr> (sampleLead ''9'' ''Z'')
     = \<lparr>leads = [sampleLead ''1'' ''A'']\<rparr>"
proof
  have "\<forall>pre x post.
      leads \<lparr>leads = [sampleLead ''1'' ''A'', sampleLead ''2'' ''B'', sampleLead ''2'' ''C'']\<rparr>
         = pre @ x # post
      \<and> (\<forall>l \<in> set pre. id' l \<noteq> id' (sampleLead ''2'' ''Z'')) \<and> id' x = id' (sampleLead ''2'' ''Z'')
      \<longrightarrow> leads (updateLead \<lparr>leads = [sampleLead ''1'' ''A'', sampleLead ''2'' ''B'', sampleLead ''2'' ''C'']\<rparr>
                   (sampleLead ''2'' ''Z'')) = pre @ sampleLead ''2'' ''Z'' # post"
    using updateLead_replaces_first_match by blast
  from this [rule_format, of "[sampleLead ''1'' ''A'']" "sampleLead ''2'' ''B''" "[sampleLead ''2'' ''C'']"]
  show "leads (updateLead \<lparr>leads = [sampleLead ''1'' ''A'', sampleLead ''2'' ''B'', sampleLead ''2'' ''C'']\<rparr>
            (sampleLead ''2'' ''Z''))
     = [sampleLead ''1'' ''A'', sampleLead ''2'' ''Z'', sampleLead ''2'' ''C'']"
    by (simp add: sampleLead_def)
next
  have "(\<forall>l \<in> set (leads \<lparr>leads = [sampleLead ''1'' ''A'']\<rparr>). id' l \<noteq> id' (sampleLead ''9'' ''Z''))
    \<longrightarrow> updateLead \<lparr>leads = [sampleLead ''1'' ''A'']\<rparr> (sampleLead ''9'' ''Z'')
        = \<lparr>leads = [sampleLead ''1'' ''A'']\<rparr>"
    using updateLead_replaces_first_match by blast
  then show "updateLead \<lparr>leads = [sampleLead ''1'' ''A'']\<rparr> (sampleLead ''9'' ''Z'')
     = \<lparr>leads = [sampleLead ''1'' ''A'']\<rparr>"
    by (simp add: sampleLead_def)
qed

text \<open>
  Claim C5. \<open>deleteLead\<close> removes every entry whose id equals the given id and keeps every
  other entry (with its multiplicity); when no entry has that id the state is left as it is.
\<close>

theorem deleteLead_removes_all_matches:
  "(\<forall>l \<in> set (leads (deleteLead state k)). id' l \<noteq> k)
   \<and> mset (leads (deleteLead state k)) = filter_mset (\<lambda>l. id' l \<noteq> k) (mset (leads state))
   \<and> ((\<forall>l \<in> set (leads state). id' l \<noteq> k) \<longrightarrow> deleteLead state k = state)"
proof (intro conjI impI)
  show "\<forall>l \<in> set (leads (deleteLead state k)). id' l \<noteq> k"
    by (simp add: deleteLead_def)
  show "mset (leads (deleteLead state k)) = filter_mset (\<lambda>l. id' l \<noteq> k) (mset (leads state))"
    by (simp add: deleteLead_def)
next
  assume "\<forall>l \<in> set (leads state). id' l \<noteq> k"
  then have "filter (\<lambda>l. id' l \<noteq> k) (leads state) = leads state"
    by (simp add: filter_id_conv)
  then show "deleteLead state k = state"
    by (simp add: deleteLead_def)
qed

theorem deleteLead_removes_all_matches_witness:
  "leads (deleteLead \<lparr>leads = [sampleLead ''2'' ''A'', sampleLead ''1'' ''B'', sampleLead ''2'' ''C'']\<rparr> (js ''2''))
     = [sampleLead ''1'' ''B'']
   \<and> deleteLead \<lparr>leads = [sampleLead ''1'' ''B'']\<rparr> (js ''7'') = \<lparr>leads = [sampleLead ''1'' ''B'']\<rparr>"
proof
  show "leads (deleteLead \<lparr>leads = [sampleLead ''2'' ''A'', sampleLead ''1'' ''B'', sampleLead ''2'' ''C'']\<rparr> (js ''2''))
     = [sampleLead ''1'' ''B'']"
    by (simp add: sampleLead_def deleteLead_def)
next
  have "(\<forall>l \<in> set (leads \<lparr>leads = [sampleLead ''1'' ''B'']\<rparr>). id' l \<noteq> js ''7'')
    \<longrightarrow> deleteLead \<lparr>leads = [sampleLead ''1'' ''B'']\<rparr> (js ''7'') = \<lparr>leads = [sampleLead ''1'' ''B'']\<rparr>"
    using deleteLead_removes_all_matches by blast
  then show "deleteLead \<lparr>leads = [sampleLead ''1'' ''B'']\<rparr> (js ''7'') = \<lparr>leads = [sampleLead ''1'' ''B'']\<rparr>"
    by (simp add: sampleLead_def)
qed

text \<open>
  Claim C8. \<open>addLead\<close> appends the lead at the end of the collection and checks nothing:
  the collection grows by one, its last entry is the new lead, and the entries that were
  there before keep their positions, also when the id of the new lead is already in use.
\<close>

theorem addLead_appends:
  "leads (addLead state payload) = leads state @ [payload]
   \<and> length (leads (addLead state payload)) = Suc (length (leads state))
   \<and> take (length (leads state)) (leads (addLead state payload)) = leads state
   \<and> last (leads (addLead state payload)) = payload"
  by (simp add: addLead_def)

text \<open>
  Claim C10. \<open>updateLead\<close> keeps the length of the collection and leaves every entry whose
  id differs from the id of the payload where and as it was; \<open>deleteLead\<close> keeps the
  remaining entries in their relative order: the result is a subsequence of the
  collection, made of exactly the entries with another id.
\<close>

theorem updateLead_deleteLead_frame:
  "length (leads (updateLead state payload)) = length (leads state)
   \<and> (\<forall>i < length (leads state).
        id' (leads state ! i) \<noteq> id' payload \<longrightarrow> leads (updateLead state payload) ! i = leads state ! i)
   \<and> subseq (leads (deleteLead state k)) (leads state)
   \<and> leads (deleteLead state k) = filter (\<lambda>l. id' l \<noteq> k) (leads state)"
proof (intro conjI allI impI)
  show "length (leads (updateLead state payload)) = length (leads state)"
    by (simp add: updateLead_def Let_def)
next
  fix i
  assume i: "i < length (leads state)" and ne: "id' (leads state ! i) \<noteq> id' payload"
  show "leads (updateLead state payload) ! i = leads state ! i"
  proof (cases "findIndex (\<lambda>l. id' l = id' payload) (leads state) = - 1")
    case True
    then show ?thesis by (simp add: updateLead_def)
  next
    case False
    from findIndex_hit [OF this] ne
    have "nat (findIndex (\<lambda>l. id' l = id' payload) (leads state)) \<noteq> i" by auto
    with False show ?thesis by (simp add: updateLead_def Let_def)
  qed
next
  show "subseq (leads (deleteLead state k)) (leads state)"
    by (simp add: deleteLead_def)
next
  show "leads (deleteLead state k) = filter (\<lambda>l. id' l \<noteq> k) (leads state)"
    by (simp add: deleteLead_def)
qed

theorem updateLead_deleteLead_frame_witness:
  "leads (updateLead \<lparr>leads = [sampleLead ''1'' ''A'', sampleLead ''2'' ''B'']\<rparr> (sampleLead ''2'' ''Z'')) ! 0
     = sampleLead ''1'' ''A''"
proof -
  have "\<forall>i < length (leads \<lparr>leads = [sampleLead ''1'' ''A'', sampleLead ''2'' ''B'']\<rparr>).
      id' (leads \<lparr>leads = [sampleLead ''1'' ''A'', sampleLead ''2'' ''B'']\<rparr> ! i) \<noteq> id' (sampleLead ''2'' ''Z'')
      \<longrightarrow> leads (updateLead \<lparr>leads = [sampleLead ''1'' ''A'', sampleLead ''2'' ''B'']\<rparr> (sampleLead ''2'' ''Z'')) ! i
          = leads \<lparr>leads = [sampleLead ''1'' ''A'', sampleLead ''2'' ''B'']\<rparr> ! i"
    using updateLead_deleteLead_frame by blast
  from this [rule_format, of 0] show ?thesis
    by (simp add: sampleLead_def)
qed

section \<open>The JSON text round trip\<close>

lemma hexValue_hexDigit_all: "\<forall>k \<in> {..<16}. hexValue (hexDigit k) = Some k"
  by (simp add: lessThan_nat_numeral lessThan_Suc hexDigit_def hexValue_def)

lemma hexValue_hexDigit: "k < 16 \<Longrightarrow> hexValue (hexDigit k) = Some k"
  using hexValue_hexDigit_all by blast

lemma hex_digits_sum:
  "4096 * (n div 4096) + 256 * (n div 256 mod 16) + 16 * (n div 16 mod 16) + n mod 16 = (n::nat)"
proof -
  have a: "n = 16 * (n div 16) + n mod 16" by simp
  have b: "n div 16 = 16 * (n div 16 div 16) + n div 16 mod 16" by simp
  have c: "n div 256 = 16 * (n div 256 div 16) + n div 256 mod 16" by simp
  have d: "n div 16 div 16 = n div 256" "n div 256 div 16 = n div 4096"
    by (simp_all add: div_mult2_eq [symmetric])
  from a b c d show ?thesis by linarith
qed

lemma unat_codeunit_less: "unat (c :: codeunit) < 65536"
  using unsigned_less [of c, where 'a = nat] by simp

lemma parse_UnicodeEscape:
  "parseStringBody (UnicodeEscape c @ rest) = map_option (\<lambda>(s, r). (c # s, r)) (parseStringBody rest)"
proof -
  let ?n = "unat c"
  have "?n div 4096 < 16"
    using unat_codeunit_less [of c] by simp
  then have h3: "hexValue (hexDigit (?n div 4096)) = Some (?n div 4096)"
    by (rule hexValue_hexDigit)
  have h2: "hexValue (hexDigit (?n div 256 mod 16)) = Some (?n div 256 mod 16)"
    by (rule hexValue_hexDigit) simp
  have h1: "hexValue (hexDigit (?n div 16 mod 16)) = Some (?n div 16 mod 16)"
    by (rule hexValue_hexDigit) simp
  have h0: "hexValue (hexDigit (?n mod 16)) = Some (?n mod 16)"
    by (rule hexValue_hexDigit) simp
  have decoded: "(of_nat (4096 * (?n div 4096) + 256 * (?n div 256 mod 16) + 16 * (?n div 16 mod 16)
                 + ?n mod 16) :: codeunit) = c"
    by (simp only: hex_digits_sum) simp
  show ?thesis
    by (simp add: UnicodeEscape_def Let_def backslash_def dquote_def h3 h2 h1 h0 decoded
        del: of_nat_add of_nat_mult)
qed

lemma parse_short_escape:
  "unescape e = Some x \<Longrightarrow> e \<noteq> 0x75 \<Longrightarrow>
   parseStringBody (backslash # e # rest) = map_option (\<lambda>(s, r). (x # s, r)) (parseStringBody rest)"
  by (simp add: backslash_def dquote_def)

lemma parse_plain:
  "c \<noteq> dquote \<Longrightarrow> c \<noteq> backslash \<Longrightarrow> \<not> c < 0x20 \<Longrightarrow>
   parseStringBody (c # rest) = map_option (\<lambda>(s, r). (c # s, r)) (parseStringBody rest)"
  by simp

lemma parse_quoteUnit:
  "parseStringBody (quoteUnit c @ rest) = map_option (\<lambda>(s, r). (c # s, r)) (parseStringBody rest)"
proof -
  consider (short) "c \<in> {0x08, 0x09, 0x0A, 0x0C, 0x0D, dquote, backslash}"
    | (escaped) "c \<notin> {0x08, 0x09, 0x0A, 0x0C, 0x0D, dquote, backslash}"
        "c < 0x20 \<or> isLeadingSurrogate c \<or> isTrailingSurrogate c"
    | (plain) "c \<notin> {0x08, 0x09, 0x0A, 0x0C, 0x0D, dquote, backslash}"
        "\<not> (c < 0x20 \<or> isLeadingSurrogate c \<or> isTrailingSurrogate c)"
    by blast
  then show ?thesis
  proof cases
    case short
    then obtain e where e: "quoteUnit c = [backslash, e]" "unescape e = Some c" "e \<noteq> 0x75"
      by (auto simp: quoteUnit_def unescape_def dquote_def backslash_def)
    then show ?thesis
      using parse_short_escape [of e c rest] by simp
  next
    case escaped
    then have "quoteUnit c = UnicodeEscape c"
      by (simp add: quoteUnit_def)
    then show ?thesis
      by (simp add: parse_UnicodeEscape)
  next
    case plain
    then have "quoteUnit c = [c]"
      by (simp add: quoteUnit_def)
    with plain show ?thesis
      using parse_plain [of c rest] by simp
  qed
qed

lemma surrogate_plain:
  "isLeadingSurrogate c \<or> isTrailingSurrogate c \<Longrightarrow>
   c \<noteq> dquote \<and> c \<noteq> backslash \<and> \<not> c < 0x20"
  by (auto simp: isLeadingSurrogate_def isTrailingSurrogate_def dquote_def backslash_def
      word_le_nat_alt word_less_nat_alt)

lemma parse_quoted:
  "parseStringBody (quoteUnits s @ dquote # rest) = Some (s, rest)"
proof (induction s rule: quoteUnits.induct)
  case 1
  show ?case by simp
next
  case (2 c)
  show ?case by (simp add: parse_quoteUnit)
next
  case (3 c d cs)
  show ?case
  proof (cases "isLeadingSurrogate c \<and> isTrailingSurrogate d")
    case True
    then have q: "quoteUnits (c # d # cs) = c # d # quoteUnits cs"
      by auto
    from True have "c \<noteq> dquote \<and> c \<noteq> backslash \<and> \<not> c < 0x20"
      and "d \<noteq> dquote \<and> d \<noteq> backslash \<and> \<not> d < 0x20"
      using surrogate_plain [of c] surrogate_plain [of d] by simp_all
    then have "parseStringBody (c # d # quoteUnits cs @ dquote # rest)
        = map_option (\<lambda>(s, r). (c # d # s, r)) (parseStringBody (quoteUnits cs @ dquote # rest))"
      by (simp add: parse_plain option.map_comp comp_def split_def del: parseStringBody.simps)
    moreover have "parseStringBody (quoteUnits cs @ dquote # rest) = Some (cs, rest)"
      using "3.IH"(1) True by blast
    ultimately show ?thesis
      by (simp add: q del: parseStringBody.simps quoteUnits.simps)
  next
    case False
    then have q: "quoteUnits (c # d # cs) = quoteUnit c @ quoteUnits (d # cs)"
      by auto
    have "parseStringBody (quoteUnits (d # cs) @ dquote # rest) = Some (d # cs, rest)"
      using "3.IH"(2) False by blast
    then show ?thesis
      by (simp add: q parse_quoteUnit del: parseStringBody.simps quoteUnits.simps)
  qed
qed

lemma expect_append: "expect p (p @ s) = Some s"
  by (induction p) simp_all

lemma skipWs_keep: "\<not> isWhiteSpace c \<Longrightarrow> skipWs (c # s) = c # s"
  by (simp add: skipWs_def)

lemma skipWs_punctuation:
  "c \<in> {0x3A, 0x2C, 0x7B, 0x7D, 0x5B, 0x5D} \<Longrightarrow> skipWs (c # s) = c # s"
  by (auto simp: skipWs_def isWhiteSpace_def)

lemma skipWs_Nil: "skipWs [] = []"
  by (simp add: skipWs_def)

lemma skipWs_quoted: "skipWs (QuoteJSONString v @ rest) = QuoteJSONString v @ rest"
  by (simp add: QuoteJSONString_def skipWs_def isWhiteSpace_def dquote_def)

lemma parseString_quoted: "parseString (QuoteJSONString v @ rest) = Some (v, rest)"
  by (simp add: parseString_def QuoteJSONString_def parse_quoted)

lemma length_joinComma: "length xs \<le> length (joinComma xs) + 1"
  by (induction xs rule: joinComma.induct) simp_all

lemma parseMember_serialized: "parseMember (serializeProperty p @ rest) = Some (p, rest)"
  by (simp add: parseMember_def serializeProperty_def skipWs_quoted parseString_quoted
      skipWs_punctuation)

lemma parseMembers_serialized:
  "ps \<noteq> [] \<Longrightarrow> length ps \<le> n \<Longrightarrow>
   parseMembers n (joinComma (map serializeProperty ps) @ 0x7D # rest) = Some (ps, rest)"
proof (induction ps arbitrary: n rule: induct_list012)
  case 1
  then show ?case by simp
next
  case (2 p)
  then obtain m where "n = Suc m" by (cases n) auto
  then show ?case
    by (simp add: parseMember_serialized skipWs_punctuation)
next
  case (3 p q ps)
  then obtain m where n: "n = Suc m" by (cases n) auto
  with 3 have "parseMembers m (joinComma (map serializeProperty (q # ps)) @ 0x7D # rest)
      = Some (q # ps, rest)"
    by simp
  then show ?case
    by (simp add: n parseMember_serialized skipWs_punctuation)
qed

lemma leadOfMembers_properties: "leadOfMembers (leadProperties l) = Some l"
  by (simp add: leadOfMembers_def leadProperties_def property_def leadKeys_def)

lemma parseLead_serialized: "parseLead (serializeLead l @ rest) = Some (l, rest)"
proof -
  let ?body = "joinComma (map serializeProperty (leadProperties l)) @ 0x7D # rest"
  have "length (map serializeProperty (leadProperties l)) \<le> length ?body"
    using length_joinComma [of "map serializeProperty (leadProperties l)"] by simp
  then have "parseMembers (length ?body) ?body = Some (leadProperties l, rest)"
    by (intro parseMembers_serialized) (simp_all add: leadProperties_def)
  then show ?thesis
    by (simp add: parseLead_def serializeLead_def skipWs_punctuation leadOfMembers_properties)
qed

lemma serializeLead_starts: "\<exists>t. serializeLead l = 0x7B # t"
  by (simp add: serializeLead_def)

lemma joinComma_starts:
  "ls \<noteq> [] \<Longrightarrow> \<exists>t. joinComma (map serializeLead ls) = 0x7B # t"
proof (cases ls)
  case Nil
  moreover assume "ls \<noteq> []"
  ultimately show ?thesis by simp
next
  case (Cons l ls')
  obtain t where t: "serializeLead l = 0x7B # t"
    using serializeLead_starts by blast
  show ?thesis
    by (cases ls') (simp_all add: Cons t)
qed

lemma parseElements_serialized:
  "ls \<noteq> [] \<Longrightarrow> length ls \<le> n \<Longrightarrow>
   parseElements n (joinComma (map serializeLead ls) @ 0x5D # rest) = Some (ls, rest)"
proof (induction ls arbitrary: n rule: induct_list012)
  case 1
  then show ?case by simp
next
  case (2 l)
  then obtain m where "n = Suc m" by (cases n) auto
  then show ?case by (simp add: parseLead_serialized skipWs_punctuation)
next
  case (3 l k ls)
  then obtain m where n: "n = Suc m" by (cases n) auto
  with 3 have "parseElements m (joinComma (map serializeLead (k # ls)) @ 0x5D # rest)
      = Some (k # ls, rest)"
    by simp
  then show ?case
    by (simp add: n parseLead_serialized skipWs_punctuation)
qed

lemma JSON_parse_stringify: "JSON_parse (JSON_stringify ls) = Some ls"
proof (cases "ls = []")
  case True
  then show ?thesis
    by (simp add: JSON_parse_def JSON_stringify_def skipWs_punctuation skipWs_Nil)
next
  case False
  let ?body = "joinComma (map serializeLead ls) @ [0x5D]"
  obtain t where t: "joinComma (map serializeLead ls) = 0x7B # t"
    using joinComma_starts [OF False] by blast
  have "length ls \<le> length ?body"
    using length_joinComma [of "map serializeLead ls"] by simp
  then have "parseElements (length ?body) ?body = Some (ls, [])"
    using parseElements_serialized [OF False, of "length ?body" "[]"] by simp
  moreover have "skipWs ?body = 0x7B # t @ [0x5D]"
    by (simp add: t skipWs_punctuation)
  ultimately show ?thesis
    by (simp add: JSON_parse_def JSON_stringify_def skipWs_punctuation skipWs_Nil)
qed

lemma JSON_stringify_nonempty: "JSON_stringify ls \<noteq> []"
  by (simp add: JSON_stringify_def)

section \<open>Persistence of the leads\<close>

lemma leadsKey_not_email: "getLeadsKey st \<noteq> js ''currentUserEmail''"
  by (simp add: getLeadsKey_def)

lemma getLeadsKey_upd: "getLeadsKey (st(getLeadsKey st \<mapsto> x)) = getLeadsKey st"
  using leadsKey_not_email [of st] by (simp add: getLeadsKey_def)

lemma truthy_stringify: "truthy (Some (JSON_stringify ls))"
  by (simp add: truthy_def JSON_stringify_nonempty)

lemma map_replace_no_match:
  "\<forall>l \<in> set ls. id' l \<noteq> i \<Longrightarrow> map (\<lambda>l. if id' l = i then p else l) ls = ls"
  by (induction ls) simp_all

lemma updateLead_is_map:
  assumes "distinct (map id' (leads s))"
  shows "leads (updateLead s p) = map (\<lambda>l. if id' l = id' p then p else l) (leads s)"
proof (cases "\<exists>l \<in> set (leads s). id' l = id' p")
  case False
  then have none: "\<forall>l \<in> set (leads s). id' l \<noteq> id' p" by blast
  then have "findIndex (\<lambda>l. id' l = id' p) (leads s) = - 1"
    by (simp add: findIndex_none)
  then show ?thesis
    by (simp add: updateLead_def map_replace_no_match [OF none])
next
  case True
  then obtain pre x post where split: "leads s = pre @ x # post" "id' x = id' p"
      "\<forall>l \<in> set pre. id' l \<noteq> id' p"
    using split_list_first_prop [of "leads s" "\<lambda>l. id' l = id' p"] by blast
  from assms split have "id' x \<notin> id' ` set post"
    by simp
  with split(2) have post: "\<forall>l \<in> set post. id' l \<noteq> id' p"
    by (metis imageI)
  have "findIndex (\<lambda>l. id' l = id' p) (leads s) = int (length pre)"
    using split by (simp add: findIndex_first)
  then have "leads (updateLead s p) = pre @ p # post"
    using split by (simp add: updateLead_def)
  moreover have "map (\<lambda>l. if id' l = id' p then p else l) (leads s) = pre @ p # post"
    using split by (simp add: map_replace_no_match [OF split(3)] map_replace_no_match [OF post])
  ultimately show ?thesis by simp
qed

lemma JSON_stringify_inj: "JSON_stringify xs = JSON_stringify ys \<Longrightarrow> xs = ys"
proof -
  assume "JSON_stringify xs = JSON_stringify ys"
  then have "JSON_parse (JSON_stringify xs) = JSON_parse (JSON_stringify ys)" by simp
  then show "xs = ys" by (simp add: JSON_parse_stringify)
qed

lemma JSON_parse_empty: "JSON_parse [] = None"
  by (simp add: JSON_parse_def skipWs_Nil)

lemma add_persists:
  assumes "inSync w"
  shows "leadsState (onSubmit_add uuid data w) = addLead (leadsState w) (formLead uuid data)
       \<and> persistedIsMemory w (onSubmit_add uuid data w)"
proof (cases "asyncStorage w (getLeadsKey (asyncStorage w))")
  case None
  with assms have "leads (leadsState w) = []"
    by (simp add: inSync_def)
  with None show ?thesis
    by (simp add: onSubmit_add_def persistedIsMemory_def Let_def addLead_def truthy_def)
next
  case (Some stored)
  with assms have p: "JSON_parse stored = Some (leads (leadsState w))"
    by (simp add: inSync_def)
  then have "stored \<noteq> []" using JSON_parse_empty by auto
  with Some p show ?thesis
    by (simp add: onSubmit_add_def persistedIsMemory_def Let_def addLead_def truthy_def)
qed

lemma delete_persists:
  assumes "leads_c = leads (leadsState w)"
  shows "leadsState (handleDelete leads_c k w) = deleteLead (leadsState w) k
       \<and> persistedIsMemory w (handleDelete leads_c k w)"
  using assms by (simp add: handleDelete_def persistedIsMemory_def Let_def deleteLead_def)

lemma handleDelete_leads:
  "leads (leadsState (handleDelete leads_c k w)) = filter (\<lambda>l. id' l \<noteq> k) (leads (leadsState w))"
  by (simp add: handleDelete_def Let_def deleteLead_def)

lemma handleDelete_storage:
  "asyncStorage (handleDelete leads_c k w)
     = (asyncStorage w)(getLeadsKey (asyncStorage w) \<mapsto> JSON_stringify (filter (\<lambda>l. id' l \<noteq> k) leads_c))"
  by (simp add: handleDelete_def Let_def)

lemma edit_persists:
  assumes "leads_c = leads (leadsState w)" and "distinct (map id' leads_c)"
  shows "leadsState (onSubmit_edit leads_c i data w) = updateLead (leadsState w) (formLead i data)
       \<and> persistedIsMemory w (onSubmit_edit leads_c i data w)"
proof -
  have i: "id' (formLead i data) = i" by (simp add: formLead_def)
  from assms have "distinct (map id' (leads (leadsState w)))"
    by simp
  from updateLead_is_map [OF this, of "formLead i data"] assms(1) show ?thesis
    by (simp add: onSubmit_edit_def persistedIsMemory_def Let_def i)
qed

lemma status_persists:
  assumes "leads_c = leads (leadsState w)" and "distinct (map id' leads_c)"
  shows "leadsState (handleStatusChange leads_c lead newStatus w)
           = updateLead (leadsState w) (lead\<lparr>status := newStatus\<rparr>)
       \<and> persistedIsMemory w (handleStatusChange leads_c lead newStatus w)"
proof -
  from assms have "distinct (map id' (leads (leadsState w)))"
    by simp
  from updateLead_is_map [OF this, of "lead\<lparr>status := newStatus\<rparr>"] assms(1) show ?thesis
    by (simp add: handleStatusChange_def persistedIsMemory_def Let_def)
qed

text \<open>
  Claim C6. Serializing a collection and rehydrating from the serialized text gives the
  collection back, entries and order alike, whatever code units the strings hold:
  \<open>JSON.parse\<close> returns the collection, \<open>setLeads\<close> installs its payload as it is, and
  \<open>fetchLeads\<close> on a device whose leads entry holds the serialized collection leaves
  exactly that collection in memory.
\<close>

theorem json_roundtrip_setLeads:
  "JSON_parse (JSON_stringify ls) = Some ls
   \<and> leads (setLeads state ls) = ls
   \<and> leads (leadsState (fetchLeads
        (w\<lparr>asyncStorage := (asyncStorage w)(getLeadsKey (asyncStorage w) \<mapsto> JSON_stringify ls)\<rparr>))) = ls"
proof (intro conjI)
  show "JSON_parse (JSON_stringify ls) = Some ls"
    by (rule JSON_parse_stringify)
  show "leads (setLeads state ls) = ls"
    by (simp add: setLeads_def)
  show "leads (leadsState (fetchLeads
        (w\<lparr>asyncStorage := (asyncStorage w)(getLeadsKey (asyncStorage w) \<mapsto> JSON_stringify ls)\<rparr>))) = ls"
    by (simp add: fetchLeads_def getLeadsKey_upd truthy_stringify JSON_parse_stringify setLeads_def)
qed

lemma sampleWorld_key: "getLeadsKey (asyncStorage (sampleWorld ls)) = js ''leads_a@b.com''"
  by (simp add: sampleWorld_def getLeadsKey_def)

lemma sampleWorld_inSync: "inSync (sampleWorld ls)"
  by (simp add: inSync_def sampleWorld_key) (simp add: sampleWorld_def JSON_parse_stringify)

text \<open>
  When the handler closes over the current in-memory collection, that collection matches
  the persisted entry and its ids are distinct, each of the four actions writes, under
  the leads key, the serialization of the in-memory collection as it is after the
  dispatched mutation; add and delete need no distinct ids.
\<close>

lemma fresh_closure_actions_persist:
  assumes "inSync w" and "leads_c = leads (leadsState w)"
  shows "persistedIsMemory w (onSubmit leads_c None uuid data w)"
    and "persistedIsMemory w (handleDelete leads_c k w)"
    and "distinct (map id' leads_c) \<Longrightarrow> i \<noteq> [] \<Longrightarrow>
         persistedIsMemory w (onSubmit leads_c (Some i) uuid data w)"
    and "distinct (map id' leads_c) \<Longrightarrow>
         persistedIsMemory w (handleStatusChange leads_c lead newStatus w)"
proof -
  show "persistedIsMemory w (onSubmit leads_c None uuid data w)"
    using add_persists [OF assms(1), of uuid data] by (simp add: onSubmit_def truthy_def)
  show "persistedIsMemory w (handleDelete leads_c k w)"
    using delete_persists [OF assms(2), of k] by simp
  show "persistedIsMemory w (onSubmit leads_c (Some i) uuid data w)"
    if "distinct (map id' leads_c)" and "i \<noteq> []"
    using edit_persists [OF assms(2) that(1), of i data] that(2)
    by (simp add: onSubmit_def truthy_def)
  show "persistedIsMemory w (handleStatusChange leads_c lead newStatus w)"
    if "distinct (map id' leads_c)"
    using status_persists [OF assms(2) that, of lead newStatus] by simp
qed

text \<open>
  Claim C1 fails on a run the screen allows. The collection of three leads is in memory
  and persisted. Two delete buttons are pressed while the same render is on screen, so
  both handlers close over the collection of three. The first handler leaves memory and
  storage in step. The second dispatches its delete on the two leads that are left and
  writes its own closure without the second lead: the first lead is gone from memory and
  back in storage.
\<close>

theorem stale_closure_delete_diverges:
  "inSync (sampleWorld [sampleLead ''1'' ''A'', sampleLead ''2'' ''B'', sampleLead ''3'' ''C''])
   \<and> inSync (handleDelete [sampleLead ''1'' ''A'', sampleLead ''2'' ''B'', sampleLead ''3'' ''C'']
        (js ''1'')
        (sampleWorld [sampleLead ''1'' ''A'', sampleLead ''2'' ''B'', sampleLead ''3'' ''C'']))
   \<and> leads (leadsState
        (handleDelete [sampleLead ''1'' ''A'', sampleLead ''2'' ''B'', sampleLead ''3'' ''C'']
           (js ''2'')
           (handleDelete [sampleLead ''1'' ''A'', sampleLead ''2'' ''B'', sampleLead ''3'' ''C'']
              (js ''1'')
              (sampleWorld [sampleLead ''1'' ''A'', sampleLead ''2'' ''B'', sampleLead ''3'' ''C'']))))
       = [sampleLead ''3'' ''C'']
   \<and> asyncStorage
        (handleDelete [sampleLead ''1'' ''A'', sampleLead ''2'' ''B'', sampleLead ''3'' ''C'']
           (js ''2'')
           (handleDelete [sampleLead ''1'' ''A'', sampleLead ''2'' ''B'', sampleLead ''3'' ''C'']
              (js ''1'')
              (sampleWorld [sampleLead ''1'' ''A'', sampleLead ''2'' ''B'', sampleLead ''3'' ''C''])))
        (js ''leads_a@b.com'')
       = Some (JSON_stringify [sampleLead ''1'' ''A'', sampleLead ''3'' ''C''])
   \<and> \<not> persistedIsMemory
        (handleDelete [sampleLead ''1'' ''A'', sampleLead ''2'' ''B'', sampleLead ''3'' ''C'']
           (js ''1'')
           (sampleWorld [sampleLead ''1'' ''A'', sampleLead ''2'' ''B'', sampleLead ''3'' ''C'']))
        (handleDelete [sampleLead ''1'' ''A'', sampleLead ''2'' ''B'', sampleLead ''3'' ''C'']
           (js ''2'')
           (handleDelete [sampleLead ''1'' ''A'', sampleLead ''2'' ''B'', sampleLead ''3'' ''C'']
              (js ''1'')
              (sampleWorld [sampleLead ''1'' ''A'', sampleLead ''2'' ''B'', sampleLead ''3'' ''C''])))"
proof -
  let ?ls = "[sampleLead ''1'' ''A'', sampleLead ''2'' ''B'', sampleLead ''3'' ''C'']"
  let ?w0 = "sampleWorld ?ls"
  let ?w1 = "handleDelete ?ls (js ''1'') ?w0"
  let ?w2 = "handleDelete ?ls (js ''2'') ?w1"
  have ids: "id' (sampleLead ''1'' ''A'') = js ''1''" "id' (sampleLead ''2'' ''B'') = js ''2''"
      "id' (sampleLead ''3'' ''C'') = js ''3''"
    by (simp_all add: sampleLead_def)
  have key0: "getLeadsKey (asyncStorage ?w0) = js ''leads_a@b.com''"
    by (rule sampleWorld_key)
  have mem0: "leads (leadsState ?w0) = ?ls"
    by (simp add: sampleWorld_def)
  have sto1: "asyncStorage ?w1
      = (asyncStorage ?w0)(js ''leads_a@b.com''
          \<mapsto> JSON_stringify [sampleLead ''2'' ''B'', sampleLead ''3'' ''C''])"
    by (simp only: handleDelete_storage key0) (simp add: ids)
  have key1: "getLeadsKey (asyncStorage ?w1) = js ''leads_a@b.com''"
    by (simp only: sto1) (simp add: sampleWorld_def getLeadsKey_def)
  have mem1: "leads (leadsState ?w1) = [sampleLead ''2'' ''B'', sampleLead ''3'' ''C'']"
    by (simp only: handleDelete_leads mem0) (simp add: ids)
  have sync1: "inSync ?w1"
    apply (simp only: inSync_def)
    apply (simp only: key1 mem1)
    apply (simp only: sto1)
    apply (simp add: JSON_parse_stringify)
    done
  have mem2: "leads (leadsState ?w2) = [sampleLead ''3'' ''C'']"
    by (simp only: handleDelete_leads [of ?ls "js ''2''"] mem1) (simp add: ids)
  have sto2: "asyncStorage ?w2 (js ''leads_a@b.com'')
      = Some (JSON_stringify [sampleLead ''1'' ''A'', sampleLead ''3'' ''C''])"
    by (simp only: handleDelete_storage [of ?ls "js ''2''"] key1) (simp add: ids)
  have "[sampleLead ''1'' ''A'', sampleLead ''3'' ''C''] \<noteq> [sampleLead ''3'' ''C'']"
    by simp
  then have "JSON_stringify [sampleLead ''1'' ''A'', sampleLead ''3'' ''C'']
      \<noteq> JSON_stringify [sampleLead ''3'' ''C'']"
    using JSON_stringify_inj by blast
  then have "\<not> persistedIsMemory ?w1 ?w2"
    apply (simp only: persistedIsMemory_def)
    apply (simp only: key1 mem2)
    apply (simp only: sto2)
    apply simp
    done
  with sampleWorld_inSync sync1 mem2 sto2 show ?thesis
    by simp
qed

section \<open>Login, logout and redirects\<close>

lemma loginUser_try_frame:
  "auth (snd (loginUser_try api c w)) = auth w
   \<and> asyncStorage (snd (loginUser_try api c w)) = asyncStorage w
   \<and> leadsState (snd (loginUser_try api c w)) = leadsState w"
  by (simp add: loginUser_try_def Let_def split: outcome.splits sum.splits)

lemma loginUser_try_result_indep:
  "fst (loginUser_try api c w) = fst (loginUser_try api c w')"
  by (simp add: loginUser_try_def Let_def SecureStore_setItemAsync_def
      split: outcome.splits option.splits)

lemma loginUser_snd: "snd (loginUser api c w) = snd (loginUser_try api c w)"
  by (cases "loginUser_try api c w") (simp add: loginUser_def split: sum.splits)

lemma loginUser_fst:
  "fst (loginUser api c w) =
     (case fst (loginUser_try api c w) of
        Inr payload \<Rightarrow> Fulfilled payload
      | Inl e \<Rightarrow> RejectedWithValue
                  (case e of JsError m \<Rightarrow> m | NonError \<Rightarrow> js ''An unknown error occurred''))"
  by (cases "loginUser_try api c w") (simp add: loginUser_def split: sum.splits)

lemma loginUser_frame:
  "auth (snd (loginUser api c w)) = auth w
   \<and> asyncStorage (snd (loginUser api c w)) = asyncStorage w
   \<and> leadsState (snd (loginUser api c w)) = leadsState w"
  by (simp add: loginUser_snd loginUser_try_frame)

lemma loginUser_result_indep: "fst (loginUser api c w) = fst (loginUser api c w')"
  using loginUser_try_result_indep [of api c w w'] by (simp add: loginUser_fst)

lemma dispatch_loginUser_rejected:
  assumes "fst (loginUser api c w) = RejectedWithValue m"
  shows "dispatch_loginUser api c w
         = (snd (loginUser api c (w\<lparr>auth := loginUser_pending (auth w)\<rparr>)))
             \<lparr>auth := (auth w)\<lparr>loading := False, error := Some m\<rparr>\<rparr>"
proof -
  let ?w0 = "w\<lparr>auth := loginUser_pending (auth w)\<rparr>"
  have r: "fst (loginUser api c ?w0) = RejectedWithValue m"
    using assms loginUser_result_indep [of api c ?w0 w] by simp
  have a: "auth (snd (loginUser api c ?w0)) = loginUser_pending (auth w)"
    using loginUser_frame [of api c ?w0] by simp
  obtain res w1 where p: "loginUser api c ?w0 = (res, w1)" by (cases "loginUser api c ?w0")
  with r a show ?thesis
    by (simp add: dispatch_loginUser_def Let_def loginUser_rejected_def loginUser_pending_def)
qed










lemma halfwayApi_issues: "loginIssues halfwayApi sampleCredentials (js ''tok'')"
  by (simp add: loginIssues_def halfwayApi_def)

lemma halfwayApi_fails: "profileFails halfwayApi (js ''tok'')"
  by (simp add: profileFails_def halfwayApi_def unauthorized_def ok_def)




text \<open>
  Claim C9. When the login answers 201 with an access token and the profile request then
  fails, the thunk rejects, \<open>error\<close> is set, \<open>user\<close> and \<open>token\<close> in memory are unchanged,
  and yet the secure store holds the new token under the key \<open>token\<close>: it was written
  before the profile request was made.
\<close>

theorem login_token_stored_although_rejected:
  assumes "loginIssues api Credentials t" and "profileFails api t"
  shows "(\<exists>m. fst (loginUser api Credentials w) = RejectedWithValue m
              \<and> error (auth (dispatch_loginUser api Credentials w)) = Some m)
       \<and> secureStore (dispatch_loginUser api Credentials w) (js ''token'') = Some t
       \<and> user (auth (dispatch_loginUser api Credentials w)) = user (auth w)
       \<and> token (auth (dispatch_loginUser api Credentials w)) = token (auth w)
       \<and> requests (dispatch_loginUser api Credentials w)
           = requests w @ [''POST /auth/login'', ''GET /auth/profile'']"
proof -
  from assms(1) obtain response data where login:
    "post_login api Credentials = Resolved response" "json response = Resolved data"
    "http_status response = 201" "access_token data = Some t"
    by (auto simp: loginIssues_def split: outcome.splits)
  have run: "\<exists>e. loginUser_try api Credentials v
        = (Inl e, v\<lparr>secureStore := (secureStore v)(js ''token'' \<mapsto> t),
                     requests := requests v @ [''POST /auth/login'', ''GET /auth/profile'']\<rparr>)" for v
    using assms(2) login
    by (auto simp: loginUser_try_def profileFails_def Let_def SecureStore_setItemAsync_def
        split: outcome.splits)
  let ?w0 = "w\<lparr>auth := loginUser_pending (auth w)\<rparr>"
  from run [of w] obtain e where "fst (loginUser_try api Credentials w) = Inl e" by auto
  then obtain m where m: "fst (loginUser api Credentials w) = RejectedWithValue m"
    by (simp add: loginUser_fst)
  from run [of ?w0] have w1: "snd (loginUser api Credentials ?w0)
        = ?w0\<lparr>secureStore := (secureStore w)(js ''token'' \<mapsto> t),
               requests := requests w @ [''POST /auth/login'', ''GET /auth/profile'']\<rparr>"
    by (auto simp: loginUser_snd)
  have "dispatch_loginUser api Credentials w
        = (snd (loginUser api Credentials ?w0))\<lparr>auth := (auth w)\<lparr>loading := False, error := Some m\<rparr>\<rparr>"
    by (rule dispatch_loginUser_rejected [OF m])
  with w1 m show ?thesis by simp
qed

theorem login_token_stored_although_rejected_witness:
  "loginIssues halfwayApi sampleCredentials (js ''tok'')
   \<and> profileFails halfwayApi (js ''tok'')
   \<and> fst (loginUser halfwayApi sampleCredentials emptyAccount) = RejectedWithValue (js ''Unauthorized'')
   \<and> secureStore (dispatch_loginUser halfwayApi sampleCredentials emptyAccount) (js ''token'') = Some (js ''tok'')
   \<and> user (auth (dispatch_loginUser halfwayApi sampleCredentials emptyAccount)) = None
   \<and> token (auth (dispatch_loginUser halfwayApi sampleCredentials emptyAccount)) = None
   \<and> error (auth (dispatch_loginUser halfwayApi sampleCredentials emptyAccount)) = Some (js ''Unauthorized'')"
proof -
  have r: "fst (loginUser halfwayApi sampleCredentials emptyAccount) = RejectedWithValue (js ''Unauthorized'')"
    by (simp add: loginUser_def loginUser_try_def halfwayApi_def unauthorized_def orDefault_def
        SecureStore_setItemAsync_def ok_def)
  have t: "token (auth emptyAccount) = None" "user (auth emptyAccount) = None"
    by (simp_all add: emptyAccount_def initialAuthState_def)
  from login_token_stored_although_rejected [OF halfwayApi_issues halfwayApi_fails, of emptyAccount]
  show ?thesis
    using halfwayApi_issues halfwayApi_fails by (simp add: r t)
qed

text \<open>
  Claim C7, as amended. When the delete of the stored token resolves, \<open>logoutUser\<close>
  removes the key \<open>token\<close> from the secure store, then sets \<open>user\<close> and \<open>token\<close> to
  \<open>null\<close>, and nothing else in the world changes. Whether the delete resolves or
  rejects, no remote call is made.
\<close>

theorem logoutUser_clears:
  "(native = None \<longrightarrow>
      secureStore (dispatch_logoutUser native w) = (secureStore w)(js ''token'' := None)
      \<and> secureStore (dispatch_logoutUser native w) (js ''token'') = None
      \<and> user (auth (dispatch_logoutUser native w)) = None
      \<and> token (auth (dispatch_logoutUser native w)) = None
      \<and> dispatch_logoutUser native w
          = (w\<lparr>secureStore := (secureStore w)(js ''token'' := None)\<rparr>)
              \<lparr>auth := (auth w)\<lparr>user := None, token := None\<rparr>\<rparr>)
   \<and> requests (dispatch_logoutUser native w) = requests w"
  by (simp add: dispatch_logoutUser_def logoutUser_def Let_def logout_def logoutUser_fulfilled_def
      SecureStore_deleteItemAsync_def split: option.splits)

theorem logoutUser_clears_witness:
  "secureStore loggedIn (js ''token'') = Some (js ''tok'')
   \<and> user (auth loggedIn) = Some sampleUser
   \<and> token (auth loggedIn) = Some (js ''tok'')
   \<and> secureStore (dispatch_logoutUser None loggedIn) (js ''token'') = None
   \<and> user (auth (dispatch_logoutUser None loggedIn)) = None
   \<and> token (auth (dispatch_logoutUser None loggedIn)) = None
   \<and> requests (dispatch_logoutUser None loggedIn) = requests loggedIn"
proof -
  have before: "secureStore loggedIn (js ''token'') = Some (js ''tok'')"
      "user (auth loggedIn) = Some sampleUser" "token (auth loggedIn) = Some (js ''tok'')"
    by (simp_all add: loggedIn_def)
  have resolved: "(None :: thrown option) = None"
    by simp
  from logoutUser_clears [of None loggedIn] resolved
  have "secureStore (dispatch_logoutUser None loggedIn) (js ''token'') = None
      \<and> user (auth (dispatch_logoutUser None loggedIn)) = None
      \<and> token (auth (dispatch_logoutUser None loggedIn)) = None
      \<and> requests (dispatch_logoutUser None loggedIn) = requests loggedIn"
    by blast
  with before show ?thesis by simp
qed

text \<open>
  Claim C7 as stated fails when the delete rejects: the thunk has no \<open>try\<close> and the slice
  no case for \<open>logoutUser.rejected\<close>, so \<open>logout()\<close> is not dispatched and \<open>user\<close>
  and \<open>token\<close> stay in memory.
\<close>

theorem logoutUser_delete_rejects_counterexample:
  "user (auth (dispatch_logoutUser (Some (JsError (js ''Could not delete the item''))) loggedIn))
     = Some sampleUser
   \<and> token (auth (dispatch_logoutUser (Some (JsError (js ''Could not delete the item''))) loggedIn))
     = Some (js ''tok'')"
  by (simp add: dispatch_logoutUser_def logoutUser_def SecureStore_deleteItemAsync_def loggedIn_def)

text \<open>
  Claim C2, as amended. Once \<open>loading\<close> is false the index screen routes on \<open>user\<close>: to
  the login screen when it is \<open>null\<close>, to the main screen otherwise, and it does not
  redirect while \<open>loading\<close>; two states that agree on \<open>loading\<close> and on whether \<open>user\<close> is
  \<open>null\<close> are routed alike, whatever their tokens. The token decides on the other two
  screens: the profile screen routes to the login screen when there is no token, the
  login screen to the main screen when there is one and the login was not handled yet.
\<close>

theorem index_redirect_by_user:
  "(\<not> loading state \<and> user state = None \<longrightarrow> index_redirect state = Some Login)
   \<and> (\<not> loading state \<and> user state \<noteq> None \<longrightarrow> index_redirect state = Some TableData)
   \<and> (loading state \<longrightarrow> index_redirect state = None)
   \<and> (\<forall>other. loading other = loading state \<and> (user other = None) = (user state = None)
         \<longrightarrow> index_redirect other = index_redirect state)
   \<and> (\<not> truthy (token state) \<longrightarrow> Profile_redirect state = Some Login)
   \<and> (truthy (token (auth w)) \<and> \<not> loginHandled
         \<longrightarrow> fst (snd (Login_effect loginHandled w)) = Some TableData)"
  by (simp add: index_redirect_def Profile_redirect_def Login_effect_def Let_def)

theorem index_redirect_by_user_witness:
  "\<not> loading initialAuthState \<and> user initialAuthState = None
   \<and> index_redirect initialAuthState = Some Login
   \<and> user (registerUser_fulfilled initialAuthState sampleUser) \<noteq> None
   \<and> index_redirect (registerUser_fulfilled initialAuthState sampleUser) = Some TableData
   \<and> loading (loginUser_pending initialAuthState)
   \<and> index_redirect (loginUser_pending initialAuthState) = None
   \<and> index_redirect (loadToken_fulfilled initialAuthState (Some (js ''tok'')))
       = index_redirect initialAuthState
   \<and> Profile_redirect initialAuthState = Some Login
   \<and> fst (snd (Login_effect False
        (emptyAccount\<lparr>auth := loadToken_fulfilled initialAuthState (Some (js ''tok''))\<rparr>))) = Some TableData"
proof -
  have a: "\<not> loading initialAuthState \<and> user initialAuthState = None"
    by (simp add: initialAuthState_def)
  have b: "\<not> loading (registerUser_fulfilled initialAuthState sampleUser)
        \<and> user (registerUser_fulfilled initialAuthState sampleUser) \<noteq> None"
    by (simp add: registerUser_fulfilled_def)
  have c: "loading (loginUser_pending initialAuthState)"
    by (simp add: loginUser_pending_def)
  have d: "loading (loadToken_fulfilled initialAuthState (Some (js ''tok''))) = loading initialAuthState
        \<and> (user (loadToken_fulfilled initialAuthState (Some (js ''tok''))) = None)
            = (user initialAuthState = None)"
    by (simp add: loadToken_fulfilled_def)
  have e: "\<not> truthy (token initialAuthState)"
    by (simp add: initialAuthState_def truthy_def)
  have f: "truthy (token (auth (emptyAccount\<lparr>auth := loadToken_fulfilled initialAuthState (Some (js ''tok''))\<rparr>)))
        \<and> \<not> False"
    by (simp add: loadToken_fulfilled_def truthy_def)
  from index_redirect_by_user [of initialAuthState emptyAccount False] a
  have 1: "index_redirect initialAuthState = Some Login" by blast
  from index_redirect_by_user [of "registerUser_fulfilled initialAuthState sampleUser" emptyAccount False] b
  have 2: "index_redirect (registerUser_fulfilled initialAuthState sampleUser) = Some TableData"
    by blast
  from index_redirect_by_user [of "loginUser_pending initialAuthState" emptyAccount False] c
  have 3: "index_redirect (loginUser_pending initialAuthState) = None" by blast
  have "\<forall>other. loading other = loading initialAuthState
            \<and> (user other = None) = (user initialAuthState = None)
          \<longrightarrow> index_redirect other = index_redirect initialAuthState"
    using index_redirect_by_user [of initialAuthState emptyAccount False] by - ((erule conjE)+, assumption)
  from this [rule_format, OF d]
  have 4: "index_redirect (loadToken_fulfilled initialAuthState (Some (js ''tok'')))
       = index_redirect initialAuthState" .
  from index_redirect_by_user [of initialAuthState emptyAccount False] e
  have 5: "Profile_redirect initialAuthState = Some Login" by blast
  from index_redirect_by_user [of initialAuthState "emptyAccount\<lparr>auth := loadToken_fulfilled initialAuthState (Some (js ''tok''))\<rparr>" False] f
  have 6: "fst (snd (Login_effect False
        (emptyAccount\<lparr>auth := loadToken_fulfilled initialAuthState (Some (js ''tok''))\<rparr>))) = Some TableData"
    by blast
  from a b c 1 2 3 4 5 6 show ?thesis by simp
qed

text \<open>
  Claim C2 as stated fails on the index screen. After \<open>loadToken\<close> found a stored token
  the state has a token and no user, and the index screen routes to the login screen;
  after a registration the state has a user and no token, and it routes to the main
  screen.
\<close>

theorem index_redirect_token_counterexample:
  "token (loadToken_fulfilled initialAuthState (Some (js ''tok''))) = Some (js ''tok'')
   \<and> index_redirect (loadToken_fulfilled initialAuthState (Some (js ''tok''))) = Some Login
   \<and> token (registerUser_fulfilled initialAuthState sampleUser) = None
   \<and> index_redirect (registerUser_fulfilled initialAuthState sampleUser) = Some TableData"
  by (simp add: index_redirect_def loadToken_fulfilled_def registerUser_fulfilled_def
      initialAuthState_def)

end
